theory Spec2Isabelle
  imports Complex_Main "HOL-Library.Multiset"
begin

section \<open>Strings of the program\<close>

text \<open>
  The program is Python; its strings are sequences of code points. A \<^typ>\<open>char\<close> of
  this development stands for the code point of the same number (0 to 255), so
  \<^const>\<open>length\<close> is Python's \<^verbatim>\<open>len\<close>. On this range the built-in string methods the
  program calls (\<^verbatim>\<open>replace\<close>, \<^verbatim>\<open>lower\<close>, \<^verbatim>\<open>split\<close>, \<^verbatim>\<open>isdecimal\<close>) are the
  functions below; none of them raises on a string.
\<close>

text \<open>\<^verbatim>\<open>string.punctuation\<close>: the 32 punctuation characters of ASCII, in code order.\<close>

definition punctuation :: string where
  "punctuation =
     ''!'' @ [CHR 0x22] @ ''#$%&'' @ [CHR 0x27] @ ''()*+,-./:;<=>?@['' @ [CHR 0x5C] @
     '']^_'' @ [CHR 0x60] @ ''{|}~''"

text \<open>
  The characters \<^verbatim>\<open>str.split()\<close> separates at (those with \<^verbatim>\<open>str.isspace\<close>): tab to
  carriage return, the four separators 0x1C to 0x1F, the space, NEL and the no-break space.
\<close>

definition whitespace :: string where
  "whitespace =
     [CHR 0x09, CHR 0x0A, CHR 0x0B, CHR 0x0C, CHR 0x0D, CHR 0x1C, CHR 0x1D, CHR 0x1E,
      CHR 0x1F, CHR 0x20, CHR 0x85, CHR 0xA0]"

definition isspace :: "char \<Rightarrow> bool" where
  "isspace c = (c \<in> set whitespace)"

text \<open>The cased letters: A to Z, and the capital letters 0xC0 to 0xDE but the sign 0xD7.\<close>

definition uppercase :: string where
  "uppercase =
     ''ABCDEFGHIJKLMNOPQRSTUVWXYZ'' @
     [CHR 0xC0, CHR 0xC1, CHR 0xC2, CHR 0xC3, CHR 0xC4, CHR 0xC5, CHR 0xC6, CHR 0xC7,
      CHR 0xC8, CHR 0xC9, CHR 0xCA, CHR 0xCB, CHR 0xCC, CHR 0xCD, CHR 0xCE, CHR 0xCF,
      CHR 0xD0, CHR 0xD1, CHR 0xD2, CHR 0xD3, CHR 0xD4, CHR 0xD5, CHR 0xD6,
      CHR 0xD8, CHR 0xD9, CHR 0xDA, CHR 0xDB, CHR 0xDC, CHR 0xDD, CHR 0xDE]"

definition lowercase :: string where
  "lowercase =
     ''abcdefghijklmnopqrstuvwxyz'' @
     [CHR 0xE0, CHR 0xE1, CHR 0xE2, CHR 0xE3, CHR 0xE4, CHR 0xE5, CHR 0xE6, CHR 0xE7,
      CHR 0xE8, CHR 0xE9, CHR 0xEA, CHR 0xEB, CHR 0xEC, CHR 0xED, CHR 0xEE, CHR 0xEF,
      CHR 0xF0, CHR 0xF1, CHR 0xF2, CHR 0xF3, CHR 0xF4, CHR 0xF5, CHR 0xF6,
      CHR 0xF8, CHR 0xF9, CHR 0xFA, CHR 0xFB, CHR 0xFC, CHR 0xFD, CHR 0xFE]"

definition lower_char :: "char \<Rightarrow> char" where
  "lower_char c = (case map_of (zip uppercase lowercase) c of None \<Rightarrow> c | Some l \<Rightarrow> l)"

text \<open>\<^verbatim>\<open>s.lower()\<close>\<close>

definition lower :: "string \<Rightarrow> string" where
  "lower s = map lower_char s"

definition decimal_digits :: string where
  "decimal_digits = ''0123456789''"

text \<open>\<^verbatim>\<open>s.isdecimal()\<close>: every character is a decimal digit and there is at least one.\<close>

definition isdecimal :: "string \<Rightarrow> bool" where
  "isdecimal s = (s \<noteq> [] \<and> list_all (\<lambda>c. c \<in> set decimal_digits) s)"

text \<open>\<^verbatim>\<open>s.replace(char, "")\<close>: every occurrence of the character is deleted.\<close>

definition replace_by_empty :: "char \<Rightarrow> string \<Rightarrow> string" where
  "replace_by_empty char s = removeAll char s"

text \<open>
  \<^verbatim>\<open>s.split()\<close>: the maximal runs of characters that are not whitespace, in order. The
  scan carries the word read so far.
\<close>

fun split_scan :: "string \<Rightarrow> string \<Rightarrow> string list" where
  "split_scan w [] = (if w = [] then [] else [w])"
| "split_scan w (c # cs) =
     (if isspace c then (if w = [] then [] else [w]) @ split_scan [] cs
      else split_scan (w @ [c]) cs)"

definition str_split :: "string \<Rightarrow> string list" where
  "str_split s = split_scan [] s"

section \<open>The tokenizer\<close>

text \<open>
  \<^verbatim>\<open>
  for word in question.split():
      if len(word) > 2 or word.isdecimal():
          words.append(word)
  \<close>
\<close>

fun append_kept :: "string list \<Rightarrow> string list \<Rightarrow> string list" where
  "append_kept words [] = words"
| "append_kept words (word # rest) =
     (if length word > 2 \<or> isdecimal word then append_kept (words @ [word]) rest
      else append_kept words rest)"

text \<open>
  \<^verbatim>\<open>split(question)\<close> of \<^verbatim>\<open>main.py\<close>: the loop over \<^verbatim>\<open>punctuation\<close> deletes one
  character at a time, then the string is lowercased, split at whitespace and filtered.
\<close>

definition split :: "string \<Rightarrow> string list" where
  "split question =
     (let question = fold replace_by_empty punctuation question;
          question = lower question
      in append_kept [] (str_split question))"

text \<open>
  The words the filter of \<^const>\<open>split\<close> chooses from, in the words of the specification:
  the whitespace-separated raw words of the text after punctuation removal and
  lowercasing.
\<close>

definition raw_words :: "string \<Rightarrow> string list" where
  "raw_words s = str_split (lower (filter (\<lambda>c. c \<notin> set punctuation) s))"

text \<open>
  \<^verbatim>\<open>s.isalpha()\<close>, the reading of "purely alphabetic": the cased letters and the five
  letters without a case partner (0xAA, 0xB5, 0xBA, 0xDF, 0xFF).
\<close>

definition alphabetic :: string where
  "alphabetic = uppercase @ lowercase @ [CHR 0xAA, CHR 0xB5, CHR 0xBA, CHR 0xDF, CHR 0xFF]"

definition isalpha :: "string \<Rightarrow> bool" where
  "isalpha s = (s \<noteq> [] \<and> list_all (\<lambda>c. c \<in> set alphabetic) s)"

section \<open>The word matcher\<close>

text \<open>
  \<^verbatim>\<open>SCORE_CUTOFF: Final[float] = 0.8\<close>. A Python float is a double, and the double
  written \<^verbatim>\<open>0.8\<close> is the number \<open>3602879701896397 / 2 ^ 52\<close>: it lies above four fifths, by
  \<open>1 / (5 * 2 ^ 52)\<close>.
\<close>

definition SCORE_CUTOFF :: rat where
  "SCORE_CUTOFF = 3602879701896397 / 4503599627370496"

text \<open>\<^verbatim>\<open>MATCHES_LIMIT: Final[int] = 10\<close>\<close>

definition MATCHES_LIMIT :: nat where
  "MATCHES_LIMIT = 10"

text \<open>
  Modelled from the spec: \<^verbatim>\<open>Levenshtein.ratio\<close> is a function of the Levenshtein package,
  which \<^verbatim>\<open>main.py\<close> imports; its code is not part of the repository. Section 4.2 of the
  specification asks for a normalized similarity ratio in the range 0 to 1 that is 1 on
  identical strings. The package computes the normalized indel similarity: with \<open>lcs\<close> the
  length of a longest common subsequence, the distance is \<open>len1 + len2 - 2 * lcs\<close> (the
  least number of insertions and deletions that turn one string into the other), the
  normalized distance is the distance divided by \<open>len1 + len2\<close> (0 when both strings are
  empty), and the similarity is 1 minus that. With a \<^verbatim>\<open>score_cutoff\<close>, a similarity below
  the cutoff is returned as 0.

  The package computes in double precision. The similarities are taken exactly here, as
  rationals, and compared with the exact value of the cutoff. A similarity of exactly four
  fifths is then below the cutoff \<^verbatim>\<open>0.8\<close> and returned as 0, and that is what the package
  returns: \<^verbatim>\<open>Levenshtein.ratio("hello", "hallo", score_cutoff=0.8)\<close> is \<^verbatim>\<open>0.0\<close>. Every
  other similarity of two strings of at most \<open>2 ^ 52\<close> characters together is farther
  from four fifths than the cutoff is, so that it is at least the cutoff exactly when it
  is greater than four fifths (\<open>is_match_greater\<close> below).
\<close>

fun lcs :: "string \<Rightarrow> string \<Rightarrow> nat" where
  "lcs [] s2 = 0"
| "lcs s1 [] = 0"
| "lcs (x # s1) (y # s2) =
     (if x = y then 1 + lcs s1 s2 else max (lcs s1 (y # s2)) (lcs (x # s1) s2))"

definition indel_distance :: "string \<Rightarrow> string \<Rightarrow> nat" where
  "indel_distance s1 s2 = length s1 + length s2 - 2 * lcs s1 s2"

definition normalized_similarity :: "string \<Rightarrow> string \<Rightarrow> rat" where
  "normalized_similarity s1 s2 =
     (let maximum = length s1 + length s2;
          norm_dist = (if maximum = 0 then 0
                       else of_nat (indel_distance s1 s2) / of_nat maximum)
      in 1 - norm_dist)"

definition Levenshtein_ratio :: "string \<Rightarrow> string \<Rightarrow> rat \<Rightarrow> rat" where
  "Levenshtein_ratio s1 s2 score_cutoff =
     (let norm_sim = normalized_similarity s1 s2
      in if score_cutoff \<le> norm_sim then norm_sim else 0)"

text \<open>
  The test of line 126,
  \<^verbatim>\<open>if Levenshtein.ratio(question_word, user_word, score_cutoff=SCORE_CUTOFF):\<close>
  a float is true when it is not zero.
\<close>

definition is_match :: "string \<Rightarrow> string \<Rightarrow> bool" where
  "is_match question_word user_word =
     (Levenshtein_ratio question_word user_word SCORE_CUTOFF \<noteq> 0)"

text \<open>
  The same test with the ratio as section 4.2 of the specification spells it: one minus
  the edit distance (insertions, deletions and substitutions of one character) over the
  length of the longer word.
\<close>

fun edit_distance :: "string \<Rightarrow> string \<Rightarrow> nat" where
  "edit_distance [] s2 = length s2"
| "edit_distance s1 [] = length s1"
| "edit_distance (x # s1) (y # s2) =
     min (min (edit_distance s1 (y # s2) + 1) (edit_distance (x # s1) s2 + 1))
       (edit_distance s1 s2 + (if x = y then 0 else 1))"

definition spec_ratio :: "string \<Rightarrow> string \<Rightarrow> rat" where
  "spec_ratio a b = 1 - of_nat (edit_distance a b) / of_nat (max (length a) (length b))"

definition spec_is_match :: "string \<Rightarrow> string \<Rightarrow> bool" where
  "spec_is_match a b = (8 / 10 \<le> spec_ratio a b)"

section \<open>Scoring and ranking\<close>

text \<open>
  The two inner loops of \<^verbatim>\<open>get_question_matches\<close>, each carrying the counter:
  \<^verbatim>\<open>
  for question_word in question_words:
      for user_word in user_words:
          if Levenshtein.ratio(question_word, user_word, score_cutoff=SCORE_CUTOFF):
              matches_number += 1
  \<close>
\<close>

fun count_user_words :: "string \<Rightarrow> nat \<Rightarrow> string list \<Rightarrow> nat" where
  "count_user_words question_word matches_number [] = matches_number"
| "count_user_words question_word matches_number (user_word # user_words) =
     count_user_words question_word
       (if is_match question_word user_word then matches_number + 1 else matches_number)
       user_words"

fun count_question_words :: "string list \<Rightarrow> nat \<Rightarrow> string list \<Rightarrow> nat" where
  "count_question_words user_words matches_number [] = matches_number"
| "count_question_words user_words matches_number (question_word # question_words) =
     count_question_words user_words
       (count_user_words question_word matches_number user_words) question_words"

text \<open>The counter of one question: its words are split, the counter starts at 0.\<close>

definition matches_number :: "string list \<Rightarrow> string \<Rightarrow> nat" where
  "matches_number user_words question = count_question_words user_words 0 (split question)"

text \<open>The loop over the questions, appending to \<^verbatim>\<open>matches\<close>.\<close>

fun scan_questions ::
  "string list \<Rightarrow> (string \<times> nat) list \<Rightarrow> string list \<Rightarrow> (string \<times> nat) list" where
  "scan_questions user_words matches [] = matches"
| "scan_questions user_words matches (question # questions) =
     (let n = matches_number user_words question
      in scan_questions user_words
           (if n > 0 then matches @ [(question, n)] else matches) questions)"

text \<open>
  \<^verbatim>\<open>list.sort(key=..., reverse=...)\<close>: a stable sort by the key; with \<^verbatim>\<open>reverse\<close> the list
  is reversed, sorted and reversed again, which keeps equal keys in their first order.
\<close>

definition list_sort :: "('a \<Rightarrow> 'k::linorder) \<Rightarrow> bool \<Rightarrow> 'a list \<Rightarrow> 'a list" where
  "list_sort key reverse xs =
     (if reverse then rev (sort_key key (rev xs)) else sort_key key xs)"

definition get_question_matches :: "string \<Rightarrow> string list \<Rightarrow> (string \<times> nat) list" where
  "get_question_matches user_input questions =
     (let user_words = split user_input;
          matches = scan_questions user_words [] questions
      in list_sort snd True matches)"

text \<open>
  The score in the words of the specification: the number of pairs of a word of the
  candidate and a word of the utterance whose similarity ratio is at least 0.8.
\<close>

definition pair_count :: "string \<Rightarrow> string \<Rightarrow> nat" where
  "pair_count utterance candidate =
     length (filter
       (\<lambda>(question_word, user_word). 8 / 10 \<le> normalized_similarity question_word user_word)
       (List.product (split candidate) (split utterance)))"

section \<open>The corpus and the two requests\<close>

text \<open>
  A row of the table \<^verbatim>\<open>questions\<close>. The question is read as a string, as the result type
  \<^verbatim>\<open>list[str]\<close> of \<^verbatim>\<open>get_questions\<close> declares; the answer and the picture links may be
  NULL (\<^verbatim>\<open>None\<close>) and the program treats that case.
\<close>

record Question =
  row_id :: int
  row_question_group :: "int option"
  row_question :: string
  row_answer :: "string option"
  row_pictures_links :: "string option"

type_synonym db = "Question list"

text \<open>
  The question of a request is any Python string; the JSON text \<^verbatim>\<open>"\ud800"\<close>, for one,
  is read as a string of one lone surrogate. Such a string is given by its code points.
  A string of the 8-bit characters above has the code points of its characters.
\<close>

definition code_points :: "string \<Rightarrow> nat list" where
  "code_points s = map of_char s"

text \<open>
  The surrogates are the code points 0xD800 to 0xDFFF. UTF-8 has no encoding for them,
  and the database driver raises \<^verbatim>\<open>UnicodeEncodeError\<close> when it binds a string that holds
  one to a statement.
\<close>

definition surrogate :: "nat \<Rightarrow> bool" where
  "surrogate c = (55296 \<le> c \<and> c \<le> 57343)"

definition utf8_encodable :: "nat list \<Rightarrow> bool" where
  "utf8_encodable s = list_all (\<lambda>c. \<not> surrogate c) s"

text \<open>
  The exception the program raises itself, with its message, and the exception of the
  database driver.
\<close>

datatype error = ValueError "nat list" | UnicodeEncodeError

text \<open>
  \<^verbatim>\<open>get_questions\<close>: the loop appends the question of every row, in the order the
  select statement yields them.
\<close>

fun append_questions :: "string list \<Rightarrow> Question list \<Rightarrow> string list" where
  "append_questions acc [] = acc"
| "append_questions acc (row # rows) = append_questions (acc @ [row_question row]) rows"

definition get_questions :: "db \<Rightarrow> string list" where
  "get_questions rows = append_questions [] rows"

text \<open>\<^verbatim>\<open>s.split(";")\<close>: the pieces between the separators, the empty ones included.\<close>

fun sep_scan :: "char \<Rightarrow> string \<Rightarrow> string \<Rightarrow> string list" where
  "sep_scan sep w [] = [w]"
| "sep_scan sep w (c # cs) =
     (if c = sep then w # sep_scan sep [] cs else sep_scan sep (w @ [c]) cs)"

definition str_split_sep :: "string \<Rightarrow> char \<Rightarrow> string list" where
  "str_split_sep s sep = sep_scan sep [] s"

text \<open>\<^verbatim>\<open>str(db_question.answer)\<close>: the text of \<^verbatim>\<open>None\<close> is \<^verbatim>\<open>"None"\<close>.\<close>

definition str :: "string option \<Rightarrow> string" where
  "str v = (case v of None \<Rightarrow> ''None'' | Some s \<Rightarrow> s)"

text \<open>
  \<^verbatim>\<open>session.scalar(select(Question).where(Question.question == question))\<close>: the
  question is bound to the statement, which fails on a string UTF-8 cannot encode;
  otherwise the result is the first row with that question, or \<^verbatim>\<open>None\<close>.
\<close>

definition scalar :: "db \<Rightarrow> nat list \<Rightarrow> error + Question option" where
  "scalar rows question =
     (if utf8_encodable question
      then Inr (find (\<lambda>row. code_points (row_question row) = question) rows)
      else Inl UnicodeEncodeError)"

text \<open>
  \<^verbatim>\<open>get_answer\<close>: an exception of the lookup passes through; the \<^verbatim>\<open>ValueError\<close> carries
  the message \<^verbatim>\<open>f"No question {question} in db"\<close>.
\<close>

definition get_answer :: "db \<Rightarrow> nat list \<Rightarrow> error + (string \<times> string list)" where
  "get_answer rows question =
     (case scalar rows question of
        Inl e \<Rightarrow> Inl e
      | Inr None \<Rightarrow>
          Inl (ValueError (code_points ''No question '' @ question @ code_points '' in db''))
      | Inr (Some db_question) \<Rightarrow>
          Inr (str (row_answer db_question),
               (case row_pictures_links db_question of
                  Some links \<Rightarrow> str_split_sep links (CHR '';'')
                | None \<Rightarrow> [])))"

record InputRequest =
  input :: string

record InputResponse =
  questions :: "string list"

text \<open>
  \<^verbatim>\<open>InputResponse.from_request\<close>: a fresh response, whose list is empty, is extended by
  the questions of \<^verbatim>\<open>matches[:MATCHES_LIMIT]\<close>.
\<close>

definition InputResponse_from_request :: "db \<Rightarrow> InputRequest \<Rightarrow> InputResponse" where
  "InputResponse_from_request rows request =
     (let instance = \<lparr>questions = []\<rparr>;
          matches = get_question_matches (input request) (get_questions rows)
      in instance\<lparr>questions := questions instance @ map fst (take MATCHES_LIMIT matches)\<rparr>)"

text \<open>A corpus of two rows, for the examples.\<close>

definition example_db :: db where
  "example_db =
     [\<lparr>row_id = 1, row_question_group = Some 1, row_question = ''How are you'',
        row_answer = Some ''Fine'', row_pictures_links = None\<rparr>,
      \<lparr>row_id = 2, row_question_group = Some 1, row_question = ''How old are you'',
        row_answer = Some ''Two'', row_pictures_links = Some ''a.png;b.png''\<rparr>]"

section \<open>Facts about the string functions\<close>

lemmas string_defs =
  punctuation_def whitespace_def isspace_def uppercase_def lowercase_def lower_char_def
  lower_def decimal_digits_def isdecimal_def replace_by_empty_def str_split_def

lemma fold_replace_by_empty:
  "fold replace_by_empty ps s = filter (\<lambda>c. c \<notin> set ps) s"
proof (induction ps arbitrary: s)
  case Nil
  show ?case by simp
next
  case (Cons p ps)
  have "filter (\<lambda>c. c \<notin> set ps) (removeAll p s) = filter (\<lambda>c. c \<notin> set (p # ps)) s"
    by (induction s) auto
  with Cons show ?case by (simp add: replace_by_empty_def)
qed

lemma append_kept_filter:
  "append_kept words ws = words @ filter (\<lambda>word. 2 < length word \<or> isdecimal word) ws"
  by (induction ws arbitrary: words) simp_all

lemma split_scan_whitespace:
  "list_all isspace s \<Longrightarrow> split_scan w s = (if w = [] then [] else [w])"
  by (induction s arbitrary: w) simp_all

lemma split_scan_no_whitespace:
  "list_all (\<lambda>c. \<not> isspace c) s \<Longrightarrow> split_scan w s = (if w @ s = [] then [] else [w @ s])"
  by (induction s arbitrary: w) simp_all

lemma split_scan_words:
  "list_all (\<lambda>c. \<not> isspace c) w \<Longrightarrow>
     list_all (\<lambda>x. x \<noteq> [] \<and> list_all (\<lambda>c. \<not> isspace c) x) (split_scan w s)"
  by (induction s arbitrary: w) simp_all

lemma split_scan_concat:
  "concat (split_scan w s) = w @ filter (\<lambda>c. \<not> isspace c) s"
  by (induction s arbitrary: w) simp_all

lemma whitespace_not_uppercase: "c \<in> set whitespace \<Longrightarrow> c \<notin> set uppercase"
  by (auto simp: whitespace_def uppercase_def)

lemma lowercase_not_whitespace: "c \<in> set lowercase \<Longrightarrow> c \<notin> set whitespace"
  by (auto simp: whitespace_def lowercase_def)

lemma lowercase_not_punctuation: "c \<in> set lowercase \<Longrightarrow> c \<notin> set punctuation"
  by (auto simp: punctuation_def lowercase_def)

lemma lowercase_not_uppercase: "c \<in> set lowercase \<Longrightarrow> c \<notin> set uppercase"
  by (auto simp: uppercase_def lowercase_def)

lemma lower_char_cases:
  "(c \<notin> set uppercase \<and> lower_char c = c) \<or> (c \<in> set uppercase \<and> lower_char c \<in> set lowercase)"
proof (cases "map_of (zip uppercase lowercase) c")
  case None
  have "length uppercase = length lowercase" by (simp add: uppercase_def lowercase_def)
  with None have "c \<notin> set uppercase"
    by (metis map_of_zip_is_None)
  with None show ?thesis by (simp add: lower_char_def)
next
  case (Some l)
  then have "(c, l) \<in> set (zip uppercase lowercase)" by (rule map_of_SomeD)
  then have "c \<in> set uppercase" "l \<in> set lowercase"
    by (auto dest: set_zip_leftD set_zip_rightD)
  with Some show ?thesis by (simp add: lower_char_def)
qed

lemma isspace_lower_char: "isspace (lower_char c) = isspace c"
  using lower_char_cases [of c] whitespace_not_uppercase [of c]
    lowercase_not_whitespace [of "lower_char c"]
  by (auto simp: isspace_def)

lemma lower_char_punctuation: "lower_char c \<in> set punctuation \<Longrightarrow> c \<in> set punctuation"
  using lower_char_cases [of c] lowercase_not_punctuation [of "lower_char c"] by auto

lemma lower_char_idem: "lower_char (lower_char c) = lower_char c"
  using lower_char_cases [of c] lower_char_cases [of "lower_char c"]
    lowercase_not_uppercase [of "lower_char c"] by auto

section \<open>Facts about the tokenizer\<close>

lemma split_filter_raw_words:
  "split s = filter (\<lambda>word. 2 < length word \<or> isdecimal word) (raw_words s)"
  by (simp add: split_def raw_words_def fold_replace_by_empty append_kept_filter)

lemma lower_whitespace: "list_all isspace s \<Longrightarrow> list_all isspace (lower s)"
  by (induction s) (simp_all add: lower_def isspace_lower_char)

lemma lower_no_whitespace:
  "list_all (\<lambda>c. \<not> isspace c) s \<Longrightarrow> list_all (\<lambda>c. \<not> isspace c) (lower s)"
  by (induction s) (simp_all add: lower_def isspace_lower_char)

lemma raw_words_only_separators:
  assumes "list_all (\<lambda>c. c \<in> set punctuation \<or> isspace c) s"
  shows "raw_words s = []"
proof -
  from assms have "list_all isspace (filter (\<lambda>c. c \<notin> set punctuation) s)"
    by (induction s) auto
  then have "list_all isspace (lower (filter (\<lambda>c. c \<notin> set punctuation) s))"
    by (rule lower_whitespace)
  then show ?thesis
    by (simp add: raw_words_def str_split_def split_scan_whitespace)
qed

lemma raw_words_punctuation: "p \<in> set punctuation \<Longrightarrow> raw_words (a @ p # b) = raw_words (a @ b)"
  by (simp add: raw_words_def)

lemma raw_words_one_run:
  assumes "list_all (\<lambda>c. \<not> isspace c) s"
  shows "raw_words s =
    (if filter (\<lambda>c. c \<notin> set punctuation) s = [] then []
     else [lower (filter (\<lambda>c. c \<notin> set punctuation) s)])"
proof -
  from assms have "list_all (\<lambda>c. \<not> isspace c) (filter (\<lambda>c. c \<notin> set punctuation) s)"
    by (induction s) auto
  then have "list_all (\<lambda>c. \<not> isspace c) (lower (filter (\<lambda>c. c \<notin> set punctuation) s))"
    by (rule lower_no_whitespace)
  then show ?thesis
    by (simp add: raw_words_def str_split_def split_scan_no_whitespace lower_def)
qed

lemma raw_word_chars:
  assumes "word \<in> set (raw_words s)" and "c \<in> set word"
  shows "c \<notin> set punctuation \<and> \<not> isspace c \<and> lower_char c = c"
proof -
  let ?s = "lower (filter (\<lambda>c. c \<notin> set punctuation) s)"
  from assms have "c \<in> set (concat (split_scan [] ?s))"
    by (auto simp: raw_words_def str_split_def)
  then have c: "c \<in> set ?s" and "\<not> isspace c"
    by (simp_all add: split_scan_concat)
  from c obtain d where "d \<notin> set punctuation" and "c = lower_char d"
    by (auto simp: lower_def)
  then have "c \<notin> set punctuation" and "lower_char c = c"
    using lower_char_punctuation [of d] by (auto simp: lower_char_idem)
  with \<open>\<not> isspace c\<close> show ?thesis by simp
qed

lemma raw_word_nonempty: "word \<in> set (raw_words s) \<Longrightarrow> word \<noteq> []"
  using split_scan_words [of "[]" "lower (filter (\<lambda>c. c \<notin> set punctuation) s)"]
  by (auto simp: raw_words_def str_split_def list_all_iff)

section \<open>Properties of the tokenizer\<close>

text \<open>
  C4: \<^const>\<open>split\<close> keeps a raw word (a whitespace-separated word of the text after
  punctuation removal and lowercasing) if and only if it is longer than 2 characters or
  consists of decimal digits only. The function has a value on every string; on the empty
  string, and on a string of punctuation and whitespace only, the value is the empty list.
\<close>

theorem split_keeps_word_iff:
  "split s = filter (\<lambda>word. 2 < length word \<or> isdecimal word) (raw_words s) \<and>
   (word \<in> set (split s) \<longleftrightarrow>
      word \<in> set (raw_words s) \<and> (2 < length word \<or> isdecimal word)) \<and>
   (list_all (\<lambda>c. c \<in> set punctuation \<or> isspace c) s \<longrightarrow> split s = []) \<and>
   split [] = []"
proof (intro conjI impI)
  show "split s = filter (\<lambda>word. 2 < length word \<or> isdecimal word) (raw_words s)"
    by (rule split_filter_raw_words)
  show "word \<in> set (split s) \<longleftrightarrow>
      word \<in> set (raw_words s) \<and> (2 < length word \<or> isdecimal word)"
    by (simp add: split_filter_raw_words)
  show "split s = []" if "list_all (\<lambda>c. c \<in> set punctuation \<or> isspace c) s"
    using that by (simp add: split_filter_raw_words raw_words_only_separators)
  show "split [] = []"
    by (simp add: split_filter_raw_words raw_words_only_separators)
qed

theorem split_keeps_word_iff_witness:
  "list_all (\<lambda>c. c \<in> set punctuation \<or> isspace c) '' ?!. , '' \<and>
   split '' ?!. , '' = [] \<and>
   raw_words ''to be or 42'' = [''to'', ''be'', ''or'', ''42''] \<and>
   split ''to be or 42'' = [''42'']"
proof -
  have h: "list_all (\<lambda>c. c \<in> set punctuation \<or> isspace c) '' ?!. , ''"
    by (simp add: punctuation_def isspace_def whitespace_def)
  have r: "raw_words ''to be or 42'' = [''to'', ''be'', ''or'', ''42'']"
    by (simp add: raw_words_def string_defs)
  from h split_keeps_word_iff [of " '' ?!. , ''"] have "split '' ?!. , '' = []" by blast
  moreover have "split ''to be or 42'' = [''42'']"
    using split_keeps_word_iff [of "''to be or 42''"] by (simp add: r string_defs)
  ultimately show ?thesis using h r by simp
qed

text \<open>
  C5, as the code has it: on the text \<^verbatim>\<open>What is 2+2? A: it's 4!\<close> the tokens are
  \<^verbatim>\<open>what\<close>, \<^verbatim>\<open>22\<close>, \<^verbatim>\<open>its\<close> and \<^verbatim>\<open>4\<close>. The short words \<^verbatim>\<open>is\<close> and \<^verbatim>\<open>a\<close> are dropped,
  the numeric words \<^verbatim>\<open>22\<close> and \<^verbatim>\<open>4\<close> are kept whatever their length, and \<^verbatim>\<open>what\<close> is
  kept for its length 4.
\<close>

theorem split_example_tokens:
  "split ''What is 2+2? A: it's 4!'' = [''what'', ''22'', ''its'', ''4'']"
  by (simp add: split_def string_defs)

text \<open>
  C5, as the claim words it, fails: \<^verbatim>\<open>2\<close> is not a token of that text, since deleting
  the plus sign leaves the one word \<^verbatim>\<open>22\<close>.
\<close>

theorem split_example_no_token_2:
  "''2'' \<notin> set (split ''What is 2+2? A: it's 4!'')"
  by (simp add: split_def string_defs)

text \<open>
  C6, as the code has it: every token is either a nonempty word of decimal digits or at
  least 3 characters long; it is not empty, holds no punctuation character and no
  whitespace, and lowercasing leaves it as it is.
\<close>

theorem split_token_shape:
  "token \<in> set (split s) \<Longrightarrow>
     (isdecimal token \<or> 3 \<le> length token) \<and> token \<noteq> [] \<and>
     list_all (\<lambda>c. c \<notin> set punctuation \<and> \<not> isspace c) token \<and> lower token = token"
proof -
  assume "token \<in> set (split s)"
  then have raw: "token \<in> set (raw_words s)" and keep: "2 < length token \<or> isdecimal token"
    by (simp_all add: split_filter_raw_words)
  from keep have "isdecimal token \<or> 3 \<le> length token" by auto
  moreover from raw have "token \<noteq> []" by (rule raw_word_nonempty)
  moreover from raw have "list_all (\<lambda>c. c \<notin> set punctuation \<and> \<not> isspace c) token"
    by (simp add: list_all_iff raw_word_chars)
  moreover from raw have "lower token = token"
    by (simp add: lower_def map_idI raw_word_chars)
  ultimately show ?thesis by simp
qed

theorem split_token_shape_witness:
  "''abc123'' \<in> set (split ''Abc123 x1 7'') \<and>
   (isdecimal ''abc123'' \<or> 3 \<le> length ''abc123'') \<and> ''abc123'' \<noteq> [] \<and>
   list_all (\<lambda>c. c \<notin> set punctuation \<and> \<not> isspace c) ''abc123'' \<and> lower ''abc123'' = ''abc123''"
proof -
  have h: "''abc123'' \<in> set (split ''Abc123 x1 7'')"
    by (simp add: split_def string_defs)
  from split_token_shape [OF h] h show ?thesis by simp
qed

text \<open>
  C6, as the claim words it, fails: the mixed word \<^verbatim>\<open>abc123\<close> is a token, and it is
  neither purely numeric nor purely alphabetic.
\<close>

theorem split_mixed_token:
  "split ''abc123'' = [''abc123''] \<and> \<not> isdecimal ''abc123'' \<and> \<not> isalpha ''abc123''"
  by (simp add: split_def string_defs isalpha_def alphabetic_def)

text \<open>
  C9, as the code has it: a punctuation character never separates words. Two fragments
  joined by a punctuation character are tokenized as their concatenation; when the
  fragments hold no whitespace they form the one merged word (lowercased, without its
  punctuation), which is a token when it is longer than 2 characters or all decimal
  digits and is dropped otherwise: never two tokens. So \<^verbatim>\<open>2+2\<close> yields the token \<^verbatim>\<open>22\<close>
  and \<^verbatim>\<open>it's\<close> yields \<^verbatim>\<open>its\<close>.
\<close>

theorem punctuation_never_separates:
  "p \<in> set punctuation \<Longrightarrow>
     split (a @ p # b) = split (a @ b) \<and>
     (list_all (\<lambda>c. \<not> isspace c) (a @ b) \<longrightarrow>
        split (a @ p # b) =
          filter (\<lambda>word. 2 < length word \<or> isdecimal word)
            [lower (filter (\<lambda>c. c \<notin> set punctuation) (a @ b))])"
proof -
  assume p: "p \<in> set punctuation"
  then have eq: "split (a @ p # b) = split (a @ b)"
    by (simp add: split_filter_raw_words raw_words_punctuation)
  have "split (a @ b) =
      filter (\<lambda>word. 2 < length word \<or> isdecimal word)
        [lower (filter (\<lambda>c. c \<notin> set punctuation) (a @ b))]"
    if "list_all (\<lambda>c. \<not> isspace c) (a @ b)"
    using raw_words_one_run [OF that]
    by (simp add: split_filter_raw_words isdecimal_def lower_def)
  with eq show ?thesis by simp
qed

theorem punctuation_never_separates_witness:
  "CHR ''+'' \<in> set punctuation \<and> list_all (\<lambda>c. \<not> isspace c) (''2'' @ ''2'') \<and>
   split ''2+2'' = split ''22'' \<and> split ''2+2'' = [''22''] \<and>
   CHR 0x27 \<in> set punctuation \<and> split ''it's'' = split ''its'' \<and> split ''it's'' = [''its'']"
proof -
  have p: "CHR ''+'' \<in> set punctuation" and q: "CHR 0x27 \<in> set punctuation"
    by (simp_all add: punctuation_def)
  have w: "list_all (\<lambda>c. \<not> isspace c) (''2'' @ ''2'')"
    and v: "list_all (\<lambda>c. \<not> isspace c) (''it'' @ ''s'')"
    by (simp_all add: isspace_def whitespace_def)
  note plus = punctuation_never_separates [OF p, of "''2''" "''2''"]
  note apos = punctuation_never_separates [OF q, of "''it''" "''s''"]
  have a1: "split ''2+2'' = split ''22''"
    using plus [THEN conjunct1] by simp
  have a2: "split ''2+2'' = [''22'']"
    using plus [THEN conjunct2, rule_format, OF w] by (simp add: string_defs)
  have b1: "split ''it's'' = split ''its''"
    using apos [THEN conjunct1] by simp
  have b2: "split ''it's'' = [''its'']"
    using apos [THEN conjunct2, rule_format, OF v] by (simp add: string_defs)
  from p q w a1 a2 b1 b2 show ?thesis by blast
qed

text \<open>
  C9, as the claim words it, fails: the fragments \<^verbatim>\<open>a\<close> and \<^verbatim>\<open>b\<close> joined by a full stop
  form the word \<^verbatim>\<open>ab\<close>, which the filter drops, so they form no token.
\<close>

theorem punctuation_merged_word_dropped:
  "CHR ''.'' \<in> set punctuation \<and> raw_words (''a'' @ CHR ''.'' # ''b'') = [''ab''] \<and>
   split (''a'' @ CHR ''.'' # ''b'') = []"
  by (simp add: split_def raw_words_def fold_replace_by_empty string_defs)

section \<open>Facts about the word matcher\<close>

lemma lcs_Nil_right: "lcs s [] = 0"
  by (cases s) simp_all

lemma lcs_sym: "lcs s1 s2 = lcs s2 s1"
  by (induction s1 s2 rule: lcs.induct) (simp_all add: lcs_Nil_right max.commute)

lemma lcs_refl: "lcs s s = length s"
  by (induction s) simp_all

lemma lcs_le: "2 * lcs s1 s2 \<le> length s1 + length s2"
  by (induction s1 s2 rule: lcs.induct) auto

lemma indel_distance_sym: "indel_distance s1 s2 = indel_distance s2 s1"
  by (simp add: indel_distance_def lcs_sym [of s1 s2] add.commute)

lemma indel_distance_refl: "indel_distance s s = 0"
  by (simp add: indel_distance_def lcs_refl)

lemma normalized_similarity_sym: "normalized_similarity s1 s2 = normalized_similarity s2 s1"
  by (simp add: normalized_similarity_def indel_distance_sym [of s1 s2] add.commute)

lemma normalized_similarity_refl: "normalized_similarity s s = 1"
  by (simp add: normalized_similarity_def indel_distance_refl)

lemma normalized_similarity_range:
  "0 \<le> normalized_similarity s1 s2 \<and> normalized_similarity s1 s2 \<le> 1"
proof -
  have "indel_distance s1 s2 \<le> length s1 + length s2"
    by (simp add: indel_distance_def)
  then have "(of_nat (indel_distance s1 s2) :: rat) \<le> of_nat (length s1 + length s2)"
    by (simp only: of_nat_le_iff)
  then show ?thesis
    by (simp add: normalized_similarity_def Let_def divide_le_eq)
qed

lemma is_match_iff: "is_match a b \<longleftrightarrow> SCORE_CUTOFF \<le> normalized_similarity a b"
  by (auto simp: is_match_def Levenshtein_ratio_def SCORE_CUTOFF_def Let_def)

lemma cutoff_iff_greater:
  fixes d m :: nat
  assumes "0 < m" and "m \<le> 2 ^ 52"
  shows "SCORE_CUTOFF \<le> 1 - of_nat d / of_nat m \<longleftrightarrow> (8 / 10 :: rat) < 1 - of_nat d / of_nat m"
proof -
  have m: "(0 :: rat) < of_nat m" using assms by simp
  have "SCORE_CUTOFF \<le> 1 - of_nat d / of_nat m \<longleftrightarrow>
      (of_nat (4503599627370496 * d) :: rat) \<le> of_nat (900719925474099 * m)"
    using m by (simp add: SCORE_CUTOFF_def field_simps)
  also have "\<dots> \<longleftrightarrow> 4503599627370496 * d \<le> 900719925474099 * m"
    by (simp only: of_nat_le_iff)
  also have "\<dots> \<longleftrightarrow> 5 * d < m"
    using assms by simp arith
  also have "\<dots> \<longleftrightarrow> (of_nat (5 * d) :: rat) < of_nat m"
    by (simp only: of_nat_less_iff)
  also have "\<dots> \<longleftrightarrow> (8 / 10 :: rat) < 1 - of_nat d / of_nat m"
    using m by (simp add: field_simps)
  finally show ?thesis .
qed

lemma is_match_greater:
  assumes "length a + length b \<le> 2 ^ 52"
  shows "is_match a b \<longleftrightarrow> 8 / 10 < normalized_similarity a b"
proof (cases "length a + length b = 0")
  case True
  then show ?thesis
    by (simp add: is_match_iff normalized_similarity_def SCORE_CUTOFF_def)
next
  case False
  then have pos: "0 < length a + length b" by simp
  from False have ns: "normalized_similarity a b =
      1 - of_nat (indel_distance a b) / of_nat (length a + length b)"
    by (simp add: normalized_similarity_def Let_def)
  show ?thesis
    unfolding is_match_iff ns by (rule cutoff_iff_greater [OF pos assms])
qed

lemma edit_distance_Nil_right: "edit_distance s [] = length s"
  by (cases s) simp_all

lemma edit_distance_sym: "edit_distance s1 s2 = edit_distance s2 s1"
  by (induction s1 s2 rule: edit_distance.induct)
    (simp_all add: edit_distance_Nil_right min.commute eq_commute)

lemma edit_distance_refl: "edit_distance s s = 0"
  by (induction s) simp_all

lemma spec_is_match_sym: "spec_is_match a b = spec_is_match b a"
  by (simp add: spec_is_match_def spec_ratio_def edit_distance_sym [of a b] max.commute)

lemma spec_is_match_refl: "spec_is_match x x"
  by (simp add: spec_is_match_def spec_ratio_def edit_distance_refl)

lemmas match_defs =
  get_question_matches_def matches_number_def is_match_def Levenshtein_ratio_def
  normalized_similarity_def indel_distance_def SCORE_CUTOFF_def list_sort_def Let_def

section \<open>Properties of the word matcher\<close>

text \<open>
  C7: the match test of two words is symmetric, and a word that is not empty matches
  itself. Both hold for the test the code makes through the Levenshtein package
  (\<^const>\<open>is_match\<close>) and for the test with the ratio spelled as in section 4.2 of the
  specification (\<^const>\<open>spec_is_match\<close>).
\<close>

theorem is_match_symmetric_reflexive:
  "is_match a b = is_match b a \<and> (x \<noteq> [] \<longrightarrow> is_match x x) \<and>
   spec_is_match a b = spec_is_match b a \<and> (x \<noteq> [] \<longrightarrow> spec_is_match x x)"
  by (simp add: is_match_iff normalized_similarity_sym [of a b] normalized_similarity_refl
      spec_is_match_sym [of a b] spec_is_match_refl SCORE_CUTOFF_def)

theorem is_match_symmetric_reflexive_witness:
  "''how'' \<noteq> [] \<and> is_match ''how'' ''how'' \<and> spec_is_match ''how'' ''how'' \<and>
   is_match ''abc'' ''abcd'' \<and> is_match ''abcd'' ''abc'' \<and>
   \<not> spec_is_match ''abc'' ''abcd'' \<and> \<not> spec_is_match ''abcd'' ''abc'' \<and>
   \<not> is_match ''how'' ''you'' \<and> \<not> is_match ''you'' ''how''"
proof -
  have 1: "is_match ''abc'' ''abcd''" and 2: "\<not> is_match ''how'' ''you''"
    by (simp_all add: match_defs)
  have 6: "\<not> spec_is_match ''abc'' ''abcd''"
    by (simp add: spec_is_match_def spec_ratio_def)
  note abc = is_match_symmetric_reflexive [of "''abc''" "''abcd''" "''how''"]
  from abc 1 have 3: "is_match ''abcd'' ''abc''" by simp
  from abc have 4: "is_match ''how'' ''how''" and 7: "spec_is_match ''how'' ''how''"
    by simp_all
  from abc 6 have 8: "\<not> spec_is_match ''abcd'' ''abc''" by simp
  from is_match_symmetric_reflexive [of "''how''" "''you''" "''how''"] 2
  have 5: "\<not> is_match ''you'' ''how''" by simp
  from 1 2 3 4 5 6 7 8 show ?thesis by simp
qed

section \<open>Facts about scoring and ranking\<close>

lemma count_user_words_eq:
  "count_user_words qw n uws = n + length (filter (is_match qw) uws)"
  by (induction uws arbitrary: n) simp_all

lemma count_question_words_eq:
  "count_question_words uws n qws =
     n + length (filter (\<lambda>(qw, uw). is_match qw uw) (List.product qws uws))"
  by (induction qws arbitrary: n) (simp_all add: count_user_words_eq filter_map o_def)

lemma matches_number_eq:
  "matches_number uws q =
     length (filter (\<lambda>(qw, uw). SCORE_CUTOFF \<le> normalized_similarity qw uw)
       (List.product (split q) uws))"
  by (simp add: matches_number_def count_question_words_eq is_match_iff)

lemma scan_questions_eq:
  "scan_questions uws matches qs =
     matches @ map (\<lambda>q. (q, matches_number uws q)) (filter (\<lambda>q. 0 < matches_number uws q) qs)"
  by (induction qs arbitrary: matches) (simp_all add: Let_def)

lemma list_sort_reverse_sorted:
  "sorted_wrt (\<lambda>a b. key b \<le> key a) (list_sort key True xs)"
proof -
  have "sorted (map key (sort_key key (rev xs)))" by (rule sorted_sort_key)
  then have "sorted_wrt (\<lambda>a b. key a \<le> key b) (sort_key key (rev xs))"
    by (simp add: sorted_map)
  then show ?thesis by (simp add: list_sort_def sorted_wrt_rev)
qed

lemma list_sort_reverse_stable:
  "filter (\<lambda>x. key x = k) (list_sort key True xs) = filter (\<lambda>x. key x = k) xs"
proof -
  have "filter (\<lambda>x. key x = k) (rev (sort_key key (rev xs))) =
      rev (filter (\<lambda>x. key x = k) (sort_key key (rev xs)))"
    by (simp add: rev_filter)
  also have "\<dots> = rev (filter (\<lambda>x. key x = k) (rev xs))"
    by (simp add: sort_key_stable)
  also have "\<dots> = filter (\<lambda>x. key x = k) xs"
    by (simp add: rev_filter)
  finally show ?thesis by (simp add: list_sort_def)
qed

lemma mset_list_sort: "mset (list_sort key reverse xs) = mset xs"
  by (simp add: list_sort_def)

lemma append_questions_eq: "append_questions acc rows = acc @ map row_question rows"
  by (induction rows arbitrary: acc) simp_all

lemma get_questions_eq: "get_questions rows = map row_question rows"
  by (simp add: get_questions_def append_questions_eq)

lemma get_question_matches_eq:
  "get_question_matches u qs =
     list_sort snd True
       (map (\<lambda>q. (q, matches_number (split u) q)) (filter (\<lambda>q. 0 < matches_number (split u) q) qs))"
  by (simp add: get_question_matches_def Let_def scan_questions_eq)

lemma length_list_sort: "length (list_sort key reverse xs) = length xs"
  by (simp add: list_sort_def)

lemma get_question_matches_mset:
  "mset (get_question_matches u qs) =
     mset (map (\<lambda>q. (q, matches_number (split u) q)) (filter (\<lambda>q. 0 < matches_number (split u) q) qs))"
  by (simp only: get_question_matches_eq mset_list_sort)

lemma get_question_matches_length:
  "length (get_question_matches u qs) = length (filter (\<lambda>q. 0 < matches_number (split u) q) qs)"
  by (simp add: get_question_matches_eq length_list_sort)

lemma matches_number_no_user_words: "matches_number [] q = 0"
proof -
  have "List.product qws ([] :: string list) = []" for qws :: "string list"
    by (induction qws) simp_all
  then show ?thesis by (simp add: matches_number_def count_question_words_eq)
qed

lemma list_sort_Nil: "list_sort key reverse [] = []"
  by (simp add: list_sort_def)

lemma split_how_old: "split ''how old'' = [''how'', ''old'']"
  by (simp add: split_def string_defs)

lemma split_how_are_you: "split ''How are you'' = [''how'', ''are'', ''you'']"
  by (simp add: split_def string_defs)

lemma split_how_old_are_you: "split ''How old are you'' = [''how'', ''old'', ''are'', ''you'']"
  by (simp add: split_def string_defs)

lemma matches_how_old:
  "get_question_matches ''how old'' [''How are you'', ''How old are you''] =
     [(''How old are you'', 2), (''How are you'', 1)]"
  by (simp add: match_defs split_how_old split_how_are_you split_how_old_are_you)

section \<open>Properties of scoring and ranking\<close>

text \<open>
  The counter \<^verbatim>\<open>get_question_matches\<close> computes for a candidate is the number of pairs of
  a word of the candidate and a word of the utterance whose similarity is at least the
  double \<^verbatim>\<open>0.8\<close>; the result holds, with that counter, the candidates whose counter is
  at least 1 and no others (as many times as they stand in the input).
\<close>

lemma get_question_matches_counts:
  "mset (get_question_matches utterance candidates) =
     mset (filter (\<lambda>entry. 1 \<le> snd entry)
       (map (\<lambda>candidate. (candidate, matches_number (split utterance) candidate)) candidates)) \<and>
   ((candidate, n) \<in> set (get_question_matches utterance candidates) \<longleftrightarrow>
     candidate \<in> set candidates \<and> n = matches_number (split utterance) candidate \<and> 1 \<le> n)"
proof -
  have m: "mset (get_question_matches utterance candidates) =
     mset (filter (\<lambda>entry. 1 \<le> snd entry)
       (map (\<lambda>candidate. (candidate, matches_number (split utterance) candidate)) candidates))"
    by (simp add: get_question_matches_mset filter_map o_def Suc_le_eq)
  have "set (get_question_matches utterance candidates) =
     set (filter (\<lambda>entry. 1 \<le> snd entry)
       (map (\<lambda>candidate. (candidate, matches_number (split utterance) candidate)) candidates))"
    using m by (metis set_mset_mset)
  then have "(candidate, n) \<in> set (get_question_matches utterance candidates) \<longleftrightarrow>
     candidate \<in> set candidates \<and> n = matches_number (split utterance) candidate \<and> 1 \<le> n"
    by auto
  with m show ?thesis by simp
qed

text \<open>
  When no word of the utterance and of the candidate reaches the similarity four fifths
  exactly, the counter is the count of the specification.
\<close>

lemma matches_number_pair_count:
  assumes "list_all (\<lambda>(qw, uw). length qw + length uw \<le> 2 ^ 52 \<and>
      normalized_similarity qw uw \<noteq> 8 / 10) (List.product (split q) (split u))"
  shows "matches_number (split u) q = pair_count u q"
proof -
  have "filter (\<lambda>(qw, uw). SCORE_CUTOFF \<le> normalized_similarity qw uw) ps =
      filter (\<lambda>(qw, uw). 8 / 10 \<le> normalized_similarity qw uw) ps"
    if "list_all (\<lambda>(qw, uw). length qw + length uw \<le> 2 ^ 52 \<and>
      normalized_similarity qw uw \<noteq> 8 / 10) ps" for ps
    using that
  proof (induction ps)
    case Nil
    show ?case by simp
  next
    case (Cons p ps)
    obtain qw uw where p: "p = (qw, uw)" by (cases p)
    with Cons.prems have "length qw + length uw \<le> 2 ^ 52"
      and "normalized_similarity qw uw \<noteq> 8 / 10" by simp_all
    then have "SCORE_CUTOFF \<le> normalized_similarity qw uw \<longleftrightarrow>
        8 / 10 \<le> normalized_similarity qw uw"
      using is_match_greater [of qw uw] by (auto simp: is_match_iff)
    with Cons p show ?case by simp
  qed
  with assms show ?thesis by (simp add: matches_number_eq pair_count_def)
qed


text \<open>
  C2: the result of \<^verbatim>\<open>get_question_matches\<close> is sorted by match count, the larger first, and
  the entries with one and the same count \<open>k\<close> are the candidates scoring \<open>k\<close> in the order of
  the input list.
\<close>

theorem get_question_matches_sorted_stable:
  "sorted_wrt (\<lambda>a b. snd b \<le> snd a) (get_question_matches utterance candidates) \<and>
   map fst (filter (\<lambda>entry. snd entry = k) (get_question_matches utterance candidates)) =
     filter (\<lambda>candidate. matches_number (split utterance) candidate = k \<and> 0 < k) candidates"
proof -
  let ?f = "\<lambda>q. matches_number (split utterance) q"
  have "sorted_wrt (\<lambda>a b. snd b \<le> snd a) (get_question_matches utterance candidates)"
    by (simp only: get_question_matches_eq list_sort_reverse_sorted)
  moreover have "filter (\<lambda>entry. snd entry = k) (get_question_matches utterance candidates) =
      filter (\<lambda>entry. snd entry = k) (map (\<lambda>q. (q, ?f q)) (filter (\<lambda>q. 0 < ?f q) candidates))"
    by (simp only: get_question_matches_eq list_sort_reverse_stable)
  moreover have "map fst (filter (\<lambda>entry. snd entry = k)
        (map (\<lambda>q. (q, ?f q)) (filter (\<lambda>q. 0 < ?f q) candidates))) =
      filter (\<lambda>q. ?f q = k \<and> 0 < k) candidates"
    by (induction candidates) auto
  ultimately show ?thesis by simp
qed

theorem get_question_matches_sorted_stable_witness:
  "get_question_matches ''how old'' [''How are you'', ''How old are you'', ''how''] =
     [(''How old are you'', 2), (''How are you'', 1), (''how'', 1)] \<and>
   sorted_wrt (\<lambda>a b. snd b \<le> snd a)
     (get_question_matches ''how old'' [''How are you'', ''How old are you'', ''how'']) \<and>
   map fst (filter (\<lambda>entry. snd entry = 1)
     (get_question_matches ''how old'' [''How are you'', ''How old are you'', ''how''])) =
     [''How are you'', ''how'']"
proof -
  have h: "split ''how'' = [''how'']" by (simp add: split_def string_defs)
  have n: "matches_number [''how'', ''old''] ''How are you'' = 1"
    "matches_number [''how'', ''old''] ''How old are you'' = 2"
    "matches_number [''how'', ''old''] ''how'' = 1"
    by (simp_all add: match_defs split_how_are_you split_how_old_are_you h)
  have e: "get_question_matches ''how old'' [''How are you'', ''How old are you'', ''how''] =
     [(''How old are you'', 2), (''How are you'', 1), (''how'', 1)]"
    by (simp add: get_question_matches_def list_sort_def split_how_old n)
  from get_question_matches_sorted_stable
    [of "''how old''" "[''How are you'', ''How old are you'', ''how'']" 1]
  show ?thesis by (simp add: e split_how_old n)
qed


section \<open>Properties of the requests\<close>

lemma from_request_questions:
  "questions (InputResponse_from_request rows request) =
     map fst (take MATCHES_LIMIT (get_question_matches (input request) (get_questions rows)))"
  by (simp add: InputResponse_from_request_def Let_def)

lemma get_questions_example: "get_questions example_db = [''How are you'', ''How old are you'']"
  by (simp add: get_questions_eq example_db_def)

text \<open>
  C3: the response to an input request holds the questions of the first
  \<^const>\<open>MATCHES_LIMIT\<close> (that is 10) entries of the ranked list: never more than 10; when
  at most 10 candidates match, all of them, in ranked order; and the empty list when no
  candidate matches.
\<close>

theorem from_request_limit:
  "MATCHES_LIMIT = 10 \<and>
   questions (InputResponse_from_request rows request) =
     map fst (take MATCHES_LIMIT (get_question_matches (input request) (get_questions rows))) \<and>
   length (questions (InputResponse_from_request rows request)) \<le> MATCHES_LIMIT \<and>
   (length (filter (\<lambda>q. 0 < matches_number (split (input request)) q) (get_questions rows))
        \<le> MATCHES_LIMIT \<longrightarrow>
      questions (InputResponse_from_request rows request) =
        map fst (get_question_matches (input request) (get_questions rows)) \<and>
      mset (questions (InputResponse_from_request rows request)) =
        mset (filter (\<lambda>q. 0 < matches_number (split (input request)) q) (get_questions rows))) \<and>
   (list_all (\<lambda>q. matches_number (split (input request)) q = 0) (get_questions rows) \<longrightarrow>
      questions (InputResponse_from_request rows request) = [])"
proof (intro conjI impI)
  let ?ms = "get_question_matches (input request) (get_questions rows)"
  let ?f = "\<lambda>q. matches_number (split (input request)) q"
  show "MATCHES_LIMIT = 10" by (simp add: MATCHES_LIMIT_def)
  show "questions (InputResponse_from_request rows request) = map fst (take MATCHES_LIMIT ?ms)"
    by (rule from_request_questions)
  show "length (questions (InputResponse_from_request rows request)) \<le> MATCHES_LIMIT"
    by (simp add: from_request_questions)
  show "questions (InputResponse_from_request rows request) = map fst ?ms"
    if "length (filter (\<lambda>q. 0 < ?f q) (get_questions rows)) \<le> MATCHES_LIMIT"
    using that by (simp add: from_request_questions get_question_matches_length)
  show "mset (questions (InputResponse_from_request rows request)) =
      mset (filter (\<lambda>q. 0 < ?f q) (get_questions rows))"
    if "length (filter (\<lambda>q. 0 < ?f q) (get_questions rows)) \<le> MATCHES_LIMIT"
  proof -
    from that have "questions (InputResponse_from_request rows request) = map fst ?ms"
      by (simp add: from_request_questions get_question_matches_length)
    then have "mset (questions (InputResponse_from_request rows request)) = image_mset fst (mset ?ms)"
      by simp
    also have "\<dots> = mset (filter (\<lambda>q. 0 < ?f q) (get_questions rows))"
      by (simp only: get_question_matches_mset) (simp add: image_mset.compositionality o_def)
    finally show ?thesis .
  qed
  show "questions (InputResponse_from_request rows request) = []"
    if "list_all (\<lambda>q. ?f q = 0) (get_questions rows)"
  proof -
    from that have "filter (\<lambda>q. 0 < ?f q) (get_questions rows) = []"
      by (simp add: list_all_iff filter_empty_conv)
    then have "?ms = []"
      using get_question_matches_length [of "input request" "get_questions rows"] by simp
    then show ?thesis by (simp add: from_request_questions)
  qed
qed

theorem from_request_limit_witness:
  "questions (InputResponse_from_request example_db \<lparr>input = ''how old''\<rparr>) =
     [''How old are you'', ''How are you''] \<and>
   length (questions (InputResponse_from_request example_db \<lparr>input = ''how old''\<rparr>)) \<le> 10 \<and>
   list_all (\<lambda>q. matches_number (split ''zebra'') q = 0) (get_questions example_db) \<and>
   questions (InputResponse_from_request example_db \<lparr>input = ''zebra''\<rparr>) = []"
proof -
  have z: "split ''zebra'' = [''zebra'']" by (simp add: split_def string_defs)
  have n: "list_all (\<lambda>q. matches_number (split ''zebra'') q = 0) (get_questions example_db)"
    by (simp add: get_questions_example z match_defs split_how_are_you split_how_old_are_you)
  have a: "questions (InputResponse_from_request example_db \<lparr>input = ''how old''\<rparr>) =
     [''How old are you'', ''How are you'']"
    using from_request_limit [of example_db "\<lparr>input = ''how old''\<rparr>"]
    by (simp add: get_questions_example matches_how_old)
  have b: "questions (InputResponse_from_request example_db \<lparr>input = ''zebra''\<rparr>) = []"
  proof -
    from n have "list_all (\<lambda>q. matches_number (split (input \<lparr>input = ''zebra''\<rparr>)) q = 0)
        (get_questions example_db)"
      by simp
    with from_request_limit [of example_db "\<lparr>input = ''zebra''\<rparr>"] show ?thesis
      by blast
  qed
  from a b n show ?thesis by simp
qed


text \<open>
  C10: when the utterance has no token, \<^verbatim>\<open>get_question_matches\<close> returns the empty list
  for every candidate list, and the response to the request holds no question.
\<close>

theorem no_user_words_no_matches:
  "split utterance = [] \<Longrightarrow>
     get_question_matches utterance candidates = [] \<and>
     questions (InputResponse_from_request rows \<lparr>input = utterance\<rparr>) = []"
  by (simp add: get_question_matches_eq matches_number_no_user_words list_sort_Nil
      from_request_questions)

theorem no_user_words_no_matches_witness:
  "split ''?! a'' = [] \<and>
   get_question_matches ''?! a'' [''How are you'', ''How old are you''] = [] \<and>
   questions (InputResponse_from_request example_db \<lparr>input = ''?! a''\<rparr>) = []"
proof -
  have h: "split ''?! a'' = []" by (simp add: split_def string_defs)
  from no_user_words_no_matches [OF h, of "[''How are you'', ''How old are you'']" example_db] h
  show ?thesis by simp
qed

lemma code_points_eq_iff: "code_points s = code_points t \<longleftrightarrow> s = t"
proof -
  have "inj (of_char :: char \<Rightarrow> nat)" by (rule injI) simp
  then show ?thesis by (simp add: code_points_def inj_map_eq_map)
qed

lemma code_points_encodable: "utf8_encodable (code_points s)"
proof -
  have small: "(of_char c :: nat) < 256" for c :: char
  proof -
    have "(of_char c :: nat) = of_char c mod 256" by simp
    also have "\<dots> < 256" by simp
    finally show ?thesis .
  qed
  have "\<not> surrogate (of_char c)" for c :: char
    using small [of c] unfolding surrogate_def by linarith
  then show ?thesis by (simp add: utf8_encodable_def code_points_def list_all_iff)
qed

lemma scalar_encodable:
  "utf8_encodable q \<Longrightarrow>
     scalar rows q = Inr (find (\<lambda>row. code_points (row_question row) = q) rows)"
  by (simp add: scalar_def)

lemma find_question_None:
  "find (\<lambda>row. code_points (row_question row) = q) rows = None \<longleftrightarrow>
     q \<notin> set (map code_points (get_questions rows))"
  by (auto simp: get_questions_eq find_None_iff)

text \<open>
  On a question that UTF-8 can encode, \<^verbatim>\<open>get_answer\<close> raises the error
  "No question ... in db" exactly when no stored question equals the requested one, and
  it raises no other error. When the question is stored, the result is the answer text
  and the picture links of its row.
\<close>

lemma get_answer_encodable:
  assumes "utf8_encodable q"
  shows "(get_answer rows q =
        Inl (ValueError (code_points ''No question '' @ q @ code_points '' in db'')) \<longleftrightarrow>
      q \<notin> set (map code_points (get_questions rows))) \<and>
   (isl (get_answer rows q) \<longrightarrow>
      get_answer rows q =
        Inl (ValueError (code_points ''No question '' @ q @ code_points '' in db''))) \<and>
   (q \<in> set (map code_points (get_questions rows)) \<longrightarrow>
      (\<exists>row. find (\<lambda>row. code_points (row_question row) = q) rows = Some row \<and>
         code_points (row_question row) = q \<and>
         get_answer rows q =
           Inr (str (row_answer row),
                (case row_pictures_links row of
                   Some links \<Rightarrow> str_split_sep links (CHR '';'')
                 | None \<Rightarrow> []))))"
proof (intro conjI impI)
  note sc = scalar_encodable [OF assms, of rows]
  show "get_answer rows q =
        Inl (ValueError (code_points ''No question '' @ q @ code_points '' in db'')) \<longleftrightarrow>
      q \<notin> set (map code_points (get_questions rows))"
    using find_question_None [of q rows]
    by (auto simp: get_answer_def sc split: option.splits)
  show "get_answer rows q =
        Inl (ValueError (code_points ''No question '' @ q @ code_points '' in db''))"
    if "isl (get_answer rows q)"
    using that by (auto simp: get_answer_def sc split: option.splits)
  show "\<exists>row. find (\<lambda>row. code_points (row_question row) = q) rows = Some row \<and>
         code_points (row_question row) = q \<and>
         get_answer rows q =
           Inr (str (row_answer row),
                (case row_pictures_links row of
                   Some links \<Rightarrow> str_split_sep links (CHR '';'')
                 | None \<Rightarrow> []))"
    if "q \<in> set (map code_points (get_questions rows))"
  proof -
    from that find_question_None [of q rows]
    obtain row where r: "find (\<lambda>row. code_points (row_question row) = q) rows = Some row"
      by auto
    then have "code_points (row_question row) = q"
      by (auto simp: find_Some_iff)
    with r show ?thesis by (simp add: get_answer_def sc)
  qed
qed

lemma get_answer_not_encodable:
  "\<not> utf8_encodable q \<Longrightarrow> get_answer rows q = Inl UnicodeEncodeError"
  by (simp add: get_answer_def scalar_def)

lemma get_answer_examples:
  "get_answer example_db (code_points ''How old'') =
     Inl (ValueError (code_points ''No question How old in db'')) \<and>
   get_answer example_db (code_points ''How old are you'') =
     Inr (''Two'', [''a.png'', ''b.png'']) \<and>
   get_answer example_db (code_points ''How are you'') = Inr (''Fine'', [])"
  by (simp add: get_answer_def scalar_def code_points_encodable code_points_eq_iff
      example_db_def str_def str_split_sep_def)
    (simp add: code_points_def)

text \<open>
  C8 fails on the code for a question that UTF-8 cannot encode, such as the string of the
  one lone surrogate 0xD800, which a request can hold. No stored question equals it, and
  \<^verbatim>\<open>get_answer\<close> raises the \<^verbatim>\<open>UnicodeEncodeError\<close> of the database driver, not the
  \<^verbatim>\<open>ValueError\<close> its docstring promises for a question that is not in the database.
\<close>

theorem get_answer_lone_surrogate:
  "[55296] \<notin> set (map code_points (get_questions example_db)) \<and>
   get_answer example_db [55296] = Inl UnicodeEncodeError \<and>
   get_answer example_db [55296] \<noteq>
     Inl (ValueError (code_points ''No question '' @ [55296] @ code_points '' in db''))"
  by (simp add: get_answer_def scalar_def utf8_encodable_def surrogate_def
      get_questions_example code_points_def)

end
